theory Spec2Isabelle
  imports Main "HOL-Library.Sublist"
begin

section \<open>Python strings\<close>

text \<open>
  A Python \<open>str\<close> is a sequence of Unicode code points, and \<open>len\<close> counts code points.
  A code point is modelled as a natural number and a \<open>str\<close> as a list of them, so that
  \<open>length\<close> is Python's \<open>len\<close> also on text outside ASCII. \<open>u\<close> embeds an ASCII
  literal.
\<close>

type_synonym pystr = "nat list"

definition u :: "string \<Rightarrow> pystr" where
  "u s = map of_char s"

text \<open>
  \<open>str.isspace\<close> on one code point: the code points CPython lists as whitespace
  (bidirectional class WS, B or S, or general category Zs).
\<close>

definition py_isspace :: "nat \<Rightarrow> bool" where
  "py_isspace c =
     ((9 \<le> c \<and> c \<le> 13) \<or> (28 \<le> c \<and> c \<le> 32) \<or> c = 133 \<or> c = 160 \<or> c = 5760
      \<or> (8192 \<le> c \<and> c \<le> 8202) \<or> c = 8232 \<or> c = 8233 \<or> c = 8239 \<or> c = 8287
      \<or> c = 12288)"

text \<open>\<open>str.strip()\<close> without argument: whitespace is removed at both ends.\<close>

definition strip :: "pystr \<Rightarrow> pystr" where
  "strip s = rev (dropWhile py_isspace (rev (dropWhile py_isspace s)))"

text \<open>\<open>s.replace(old, new)\<close> where \<open>old\<close> is one character.\<close>

definition replace_char :: "nat \<Rightarrow> pystr \<Rightarrow> pystr \<Rightarrow> pystr" where
  "replace_char c new s = concat (map (\<lambda>x. if x = c then new else [x]) s)"

text \<open>
  \<open>html.escape(s)\<close> of the standard library, with its default \<open>quote=True\<close>: five
  replacements in sequence, the ampersand first.
  \<^verbatim>\<open>
    s = s.replace("&", "&amp;")
    s = s.replace("<", "&lt;")
    s = s.replace(">", "&gt;")
    s = s.replace('"', "&quot;")
    s = s.replace('\'', "&#x27;")
  \<close>
\<close>

definition html_escape :: "pystr \<Rightarrow> pystr" where
  "html_escape s =
     replace_char 39 (u ''&#x27;'')
       (replace_char 34 (u ''&quot;'')
         (replace_char 62 (u ''&gt;'')
           (replace_char 60 (u ''&lt;'')
             (replace_char 38 (u ''&amp;'') s))))"

section \<open>Exceptions\<close>

text \<open>
  Every exception the program handles is caught as \<open>Exception\<close> and used only through
  \<open>str(e)\<close>; an exception is modelled by its class and its message.
\<close>

datatype exn = ValueError pystr | KeyError pystr | OtherError pystr

fun str_exn :: "exn \<Rightarrow> pystr" where
  "str_exn (ValueError m) = m"
| "str_exn (KeyError k) = [39] @ k @ [39]"
| "str_exn (OtherError m) = m"

section \<open>Input validation\<close>

definition MAX_QUERY_LENGTH :: nat where
  "MAX_QUERY_LENGTH = 500"

text \<open>
  \<^verbatim>\<open>
  def validate_input(query):
      if not query or len(query.strip()) < 5:
          raise ValueError("Por favor insira um t\u00f3pico v\u00e1lido (m\u00ednimo 5 caracteres)")
      if len(query) > MAX_QUERY_LENGTH:
          raise ValueError(f"T\u00f3pico muito longo (m\u00e1ximo {MAX_QUERY_LENGTH} caracteres)")
      return html.escape(query.strip())
  \<close>
  Letters outside ASCII are written \<^verbatim>\<open>\uXXXX\<close> in the quoted source and as code points in
  the model. \<open>MAX_QUERY_LENGTH\<close> is 500 in the second message.
\<close>

definition msg_too_short :: pystr where
  "msg_too_short =
     u ''Por favor insira um t'' @ [243] @ u ''pico v'' @ [225] @ u ''lido (m'' @ [237]
       @ u ''nimo 5 caracteres)''"

definition msg_too_long :: pystr where
  "msg_too_long =
     u ''T'' @ [243] @ u ''pico muito longo (m'' @ [225] @ u ''ximo 500 caracteres)''"

definition validate_input :: "pystr \<Rightarrow> exn + pystr" where
  "validate_input query =
     (if query = [] \<or> length (strip query) < 5 then Inl (ValueError msg_too_short)
      else if length query > MAX_QUERY_LENGTH then Inl (ValueError msg_too_long)
      else Inr (html_escape (strip query)))"

text \<open>
  The two properties of the validator's result that the specification words as
  "markup-significant characters escaped" and "equal in content modulo escaping":
  \<open>escape_char\<close> is the entity each character stands for, and \<open>html_unescape\<close> reads
  the five entities back, from the right end of the text to the left.
\<close>

definition escape_char :: "nat \<Rightarrow> pystr" where
  "escape_char c =
     (if c = 38 then u ''&amp;''
      else if c = 60 then u ''&lt;''
      else if c = 62 then u ''&gt;''
      else if c = 34 then u ''&quot;''
      else if c = 39 then u ''&#x27;''
      else [c])"

definition unescape_step :: "nat \<Rightarrow> pystr \<Rightarrow> pystr" where
  "unescape_step c acc =
     (if c \<noteq> 38 then c # acc
      else if take 4 acc = u ''amp;'' then 38 # drop 4 acc
      else if take 3 acc = u ''lt;'' then 60 # drop 3 acc
      else if take 3 acc = u ''gt;'' then 62 # drop 3 acc
      else if take 5 acc = u ''quot;'' then 34 # drop 5 acc
      else if take 5 acc = u ''#x27;'' then 39 # drop 5 acc
      else c # acc)"

definition html_unescape :: "pystr \<Rightarrow> pystr" where
  "html_unescape s = foldr unescape_step s []"

section \<open>The web search adapter\<close>

text \<open>
  One search result is a dictionary from field names to text. \<open>result['k']\<close> raises
  \<open>KeyError\<close> when the field is missing.
\<close>

type_synonym result = "string \<rightharpoonup> pystr"

definition getitem :: "result \<Rightarrow> string \<Rightarrow> exn + pystr" where
  "getitem r k = (case r k of None \<Rightarrow> Inl (KeyError (u k)) | Some v \<Rightarrow> Inr v)"

text \<open>
  The formatted entry of one result:
  \<^verbatim>\<open>
    news_entry = (
        f"T\u00edtulo: {html.escape(result['title'])}\n"
        f"URL: {result['href']}\n"
        f"Descri\u00e7\u00e3o: {html.escape(result['body'])}\n"
    )
  \<close>
  \<open>entry_text\<close> is the text of the f-string, \<open>news_entry\<close> reads the three fields in
  the order the f-string evaluates them.
\<close>

definition entry_text :: "pystr \<Rightarrow> pystr \<Rightarrow> pystr \<Rightarrow> pystr" where
  "entry_text t h b =
     u ''T'' @ [237] @ u ''tulo: '' @ html_escape t @ [10]
     @ u ''URL: '' @ h @ [10]
     @ u ''Descri'' @ [231, 227] @ u ''o: '' @ html_escape b @ [10]"

definition news_entry :: "result \<Rightarrow> exn + pystr" where
  "news_entry r =
     (case getitem r ''title'' of Inl e \<Rightarrow> Inl e
      | Inr t \<Rightarrow>
          (case getitem r ''href'' of Inl e \<Rightarrow> Inl e
           | Inr h \<Rightarrow>
               (case getitem r ''body'' of Inl e \<Rightarrow> Inl e
                | Inr b \<Rightarrow> Inr (entry_text t h b))))"

text \<open>\<open>sep.join(xs)\<close>.\<close>

fun join :: "pystr \<Rightarrow> pystr list \<Rightarrow> pystr" where
  "join sep [] = []"
| "join sep [x] = x"
| "join sep (x # y # ys) = x @ sep @ join sep (y # ys)"

text \<open>
  The loop over the results, with its two accumulators:
  \<^verbatim>\<open>
    for result in results:
        if result['href'] not in seen_urls:
            news_entry = ...
            news_results.append(news_entry)
            seen_urls.add(result['href'])
  \<close>
\<close>

fun dedup_loop :: "result list \<Rightarrow> pystr set \<Rightarrow> pystr list \<Rightarrow> exn + pystr list" where
  "dedup_loop [] seen_urls news_results = Inr news_results"
| "dedup_loop (r # rs) seen_urls news_results =
     (case getitem r ''href'' of Inl e \<Rightarrow> Inl e
      | Inr h \<Rightarrow>
          if h \<notin> seen_urls then
            (case news_entry r of Inl e \<Rightarrow> Inl e
             | Inr entry \<Rightarrow> dedup_loop rs (insert h seen_urls) (news_results @ [entry]))
          else dedup_loop rs seen_urls news_results)"

definition no_results :: pystr where
  "no_results = u ''Nenhum resultado encontrado.''"

definition no_valid_results :: pystr where
  "no_valid_results = u ''Nenhum resultado v'' @ [225] @ u ''lido.''"

text \<open>
  The body of the \<open>try\<close> block, after the provider call has returned or raised: the
  argument is the outcome of \<open>ddgs.text(...)\<close>.
\<close>

definition search_web_try :: "exn + result list \<Rightarrow> exn + pystr" where
  "search_web_try outcome =
     (case outcome of Inl e \<Rightarrow> Inl e
      | Inr results \<Rightarrow>
          if results = [] then Inr no_results
          else
            (case dedup_loop results {} [] of Inl e \<Rightarrow> Inl e
             | Inr news_results \<Rightarrow>
                 Inr (if news_results \<noteq> [] then join [10, 10] news_results
                      else no_valid_results)))"

text \<open>
  What \<open>search_web\<close> does to the world: the queries sent to the provider, the lines
  written by \<open>logging.error\<close>, and the delays slept between attempts. The provider is a
  parameter: its outcome may depend on how many calls came before, so that a failure can
  be transient.
\<close>

record net =
  ddgs_calls :: "pystr list"
  error_log :: "pystr list"
  sleeps :: "nat list"

type_synonym provider = "nat \<Rightarrow> pystr \<Rightarrow> exn + result list"

definition search_error :: "exn \<Rightarrow> pystr" where
  "search_error e = u ''Erro na pesquisa: '' @ str_exn e"

text \<open>
  The function under the decorator: the \<open>try\<close> block and its handler
  \<^verbatim>\<open>
    except Exception as e:
        logging.error(f"Erro na pesquisa: {str(e)}")
        return f"Erro na pesquisa: {str(e)}"
  \<close>
  The result type allows for an exception leaving the function, as the decorator expects.
\<close>

definition search_web_body ::
  "provider \<Rightarrow> pystr \<Rightarrow> pystr \<Rightarrow> net \<Rightarrow> (exn + pystr) \<times> net" where
  "search_web_body ddgs current_date query w =
     (let q = query @ u '' after:'' @ current_date;
          w1 = w\<lparr>ddgs_calls := ddgs_calls w @ [q]\<rparr>
      in case search_web_try (ddgs (length (ddgs_calls w)) q) of
           Inr s \<Rightarrow> (Inr s, w1)
         | Inl e \<Rightarrow> (Inr (search_error e), w1\<lparr>error_log := error_log w1 @ [search_error e]\<rparr>))"

text \<open>
  The decorator \<open>@retry(stop=stop_after_attempt(n), wait=wait_fixed(d))\<close> of the tenacity
  library: the function is called; when it returns, that is the result; when it raises
  and fewer than \<open>n\<close> attempts were made, the decorator sleeps \<open>d\<close> and calls again; when
  the last attempt raises, the decorator raises \<open>RetryError\<close>. \<open>retry_loop\<close> counts the
  attempts that remain after the current one.
\<close>

datatype 'a retried = Returned 'a | RetryError exn

fun retry_loop ::
  "nat \<Rightarrow> nat \<Rightarrow> (net \<Rightarrow> (exn + 'a) \<times> net) \<Rightarrow> net \<Rightarrow> 'a retried \<times> net" where
  "retry_loop 0 d f w =
     (case f w of (Inr v, w') \<Rightarrow> (Returned v, w') | (Inl e, w') \<Rightarrow> (RetryError e, w'))"
| "retry_loop (Suc m) d f w =
     (case f w of (Inr v, w') \<Rightarrow> (Returned v, w')
      | (Inl e, w') \<Rightarrow> retry_loop m d f (w'\<lparr>sleeps := sleeps w' @ [d]\<rparr>))"

definition retry ::
  "nat \<Rightarrow> nat \<Rightarrow> (net \<Rightarrow> (exn + 'a) \<times> net) \<Rightarrow> net \<Rightarrow> 'a retried \<times> net" where
  "retry n d f = retry_loop (n - 1) d f"

definition search_web :: "provider \<Rightarrow> pystr \<Rightarrow> pystr \<Rightarrow> net \<Rightarrow> pystr retried \<times> net" where
  "search_web ddgs current_date query = retry 3 1 (search_web_body ddgs current_date query)"

text \<open>
  The words of the specification about the adapter. A result is well formed when it
  carries the three fields the provider promises; \<open>block\<close> is its entry;
  \<open>first_occurrences\<close> keeps the result at position \<open>i\<close> exactly when no earlier result
  has its url; \<open>block_all_escaped\<close> is the entry with each of the three fields escaped.
\<close>

definition well_formed :: "result \<Rightarrow> bool" where
  "well_formed r = ({''title'', ''href'', ''body''} \<subseteq> dom r)"

definition url :: "result \<Rightarrow> pystr" where
  "url r = the (r ''href'')"

definition block :: "result \<Rightarrow> pystr" where
  "block r = entry_text (the (r ''title'')) (the (r ''href'')) (the (r ''body''))"

definition first_occurrences :: "result list \<Rightarrow> result list" where
  "first_occurrences rs =
     map (\<lambda>i. rs ! i)
       (filter (\<lambda>i. url (rs ! i) \<notin> set (map url (take i rs))) [0..<length rs])"

definition block_all_escaped :: "result \<Rightarrow> pystr" where
  "block_all_escaped r =
     u ''T'' @ [237] @ u ''tulo: '' @ html_escape (the (r ''title'')) @ [10]
     @ u ''URL: '' @ html_escape (the (r ''href'')) @ [10]
     @ u ''Descri'' @ [231, 227] @ u ''o: '' @ html_escape (the (r ''body'')) @ [10]"

text \<open>
  The results the loop keeps, as a function of the urls seen so far: the loop without
  its formatting.
\<close>

fun unseen :: "pystr set \<Rightarrow> result list \<Rightarrow> result list" where
  "unseen seen [] = []"
| "unseen seen (r # rs) =
     (if url r \<in> seen then unseen seen rs else r # unseen (insert (url r) seen) rs)"

text \<open>Inputs for the concrete runs below.\<close>

definition sample_a :: result where
  "sample_a =
     [''title'' \<mapsto> u ''A<1>'', ''href'' \<mapsto> u ''http://a/?x=1&y=2'', ''body'' \<mapsto> u ''first'']"

definition sample_b :: result where
  "sample_b = [''title'' \<mapsto> u ''B'', ''href'' \<mapsto> u ''http://b'', ''body'' \<mapsto> u ''second'']"

definition sample_a_again :: result where
  "sample_a_again =
     [''title'' \<mapsto> u ''A again'', ''href'' \<mapsto> u ''http://a/?x=1&y=2'',
      ''body'' \<mapsto> u ''third'']"

definition flaky_ddgs :: provider where
  "flaky_ddgs n q = (if n = 0 then Inl (OtherError (u ''timeout'')) else Inr [sample_b])"

definition net0 :: net where
  "net0 = \<lparr>ddgs_calls = [], error_log = [], sleeps = []\<rparr>"

section \<open>The research pipeline\<close>

text \<open>
  The four agents are fixed configurations handed to the agent runtime; the program
  only names them.
\<close>

datatype agent = web_search_agent | researcher_agent | writer_agent | proofreader_agent

text \<open>
  The agent runtime and the language model behind it are outside the program.
  \<open>client_run\<close> is the outcome of the expression
  \<^verbatim>\<open>client.run(agent=a, messages=[{"role": "user", "content": c}]).messages[-1]["content"]\<close>:
  a text, or an exception. \<open>client_run_stream\<close> is the outcome of iterating
  \<^verbatim>\<open>client.run(agent=a, messages=[...], stream=True)\<close>: the chunks yielded, and the exception
  that ended the iteration if one did. Both depend on the number of stage calls made
  before, so that two calls with the same message may answer differently.

  A chunk is a dictionary; the value under a key is a text or \<open>None\<close>.
  \<open>chunk.get(k)\<close> is \<open>None\<close> for a missing key.
\<close>

type_synonym chunk = "string \<rightharpoonup> pystr option"

definition chunk_get :: "chunk \<Rightarrow> string \<Rightarrow> pystr option" where
  "chunk_get c k = (case c k of None \<Rightarrow> None | Some v \<Rightarrow> v)"

record env =
  client_run :: "nat \<Rightarrow> agent \<Rightarrow> pystr \<Rightarrow> exn + pystr"
  client_run_stream :: "nat \<Rightarrow> agent \<Rightarrow> pystr \<Rightarrow> chunk list \<times> exn option"

text \<open>
  What the page shows, and the state that outlives one run of the script:
  the stage calls made so far, the lines written by \<open>logging.error\<close>, the cache of
  \<open>st.cache_data\<close> (for each topic the draft and the time it was stored), the article of
  the session state (\<open>None\<close> while the key is absent), the elements written to the page
  in this run, and the successive contents of \<open>article_placeholder\<close>.
\<close>

datatype element =
  Title pystr | Markdown pystr | Write pystr | Subheader pystr | Error pystr
  | StatusComplete pystr | Download pystr

record app =
  stage_calls :: "(agent \<times> pystr) list"
  app_log :: "pystr list"
  cache :: "pystr \<rightharpoonup> pystr \<times> nat"
  article :: "pystr option"
  page :: "element list"
  placeholder :: "pystr list"

definition st_show :: "element \<Rightarrow> app \<Rightarrow> app" where
  "st_show e st = st\<lparr>page := page st @ [e]\<rparr>"

definition DEBUG_MODE :: bool where
  "DEBUG_MODE = False"

text \<open>
  \<open>debug_step\<close> writes to the page only in debug mode; the text it would write is
  shortened here to its heading.
\<close>

definition debug_step :: "pystr \<Rightarrow> pystr \<Rightarrow> app \<Rightarrow> app" where
  "debug_step content step_name st =
     (if DEBUG_MODE then st_show (Write (u ''### Debug: '' @ step_name)) st else st)"

definition run_stage :: "env \<Rightarrow> agent \<Rightarrow> pystr \<Rightarrow> app \<Rightarrow> (exn + pystr) \<times> app" where
  "run_stage env a content st =
     (client_run env (length (stage_calls st)) a content,
      st\<lparr>stage_calls := stage_calls st @ [(a, content)]\<rparr>)"

text \<open>
  The \<open>try\<close> block of \<open>process_research\<close>: three stage calls in sequence, each fed the
  text of the one before; the first exception ends the block.
\<close>

definition process_research_try :: "env \<Rightarrow> pystr \<Rightarrow> app \<Rightarrow> (exn + pystr) \<times> app" where
  "process_research_try env query st =
     (case run_stage env web_search_agent (u ''Pesquise sobre: '' @ query) st of
        (Inl e, st1) \<Rightarrow> (Inl e, st1)
      | (Inr raw_data, st1) \<Rightarrow>
          (case run_stage env researcher_agent (u ''Analise estes dados:'' @ [10] @ raw_data)
                  (debug_step raw_data (u ''Dados Brutos da Pesquisa'') st1) of
             (Inl e, st2) \<Rightarrow> (Inl e, st2)
           | (Inr clean_data, st2) \<Rightarrow>
               run_stage env writer_agent (u ''Crie um artigo usando:'' @ [10] @ clean_data)
                 (debug_step clean_data (u ''Dados Processados'') st2)))"

text \<open>
  The function under the cache decorator: the block and its handler
  \<^verbatim>\<open>
    except Exception as e:
        logging.error(f"Erro no processamento: {str(e)}")
        raise
  \<close>
\<close>

definition process_research_body :: "env \<Rightarrow> pystr \<Rightarrow> app \<Rightarrow> (exn + pystr) \<times> app" where
  "process_research_body env query st =
     (case process_research_try env query st of
        (Inl e, st') \<Rightarrow>
          (Inl e, st'\<lparr>app_log := app_log st' @ [u ''Erro no processamento: '' @ str_exn e]\<rparr>)
      | (Inr draft, st') \<Rightarrow> (Inr draft, st'))"

text \<open>
  \<open>CACHE_TIME = timedelta(hours=1)\<close>, in seconds.
\<close>

definition CACHE_TIME :: nat where
  "CACHE_TIME = 3600"

text \<open>
  The decorator \<open>@st.cache_data(ttl=CACHE_TIME)\<close> of the streamlit library, for a
  function of one text argument called at time \<open>t\<close>: an entry for the argument that was
  stored less than \<open>ttl\<close> ago is returned and the function is not called; otherwise
  the function is called, and when it returns its value is stored with the time; when
  it raises, nothing is stored and the exception goes on to the caller.
\<close>

definition cache_lookup :: "nat \<Rightarrow> nat \<Rightarrow> (pystr \<rightharpoonup> pystr \<times> nat) \<Rightarrow> pystr \<Rightarrow> pystr option" where
  "cache_lookup ttl t c key =
     (case c key of None \<Rightarrow> None
      | Some (v, stored) \<Rightarrow> if t < stored + ttl then Some v else None)"

definition cache_data ::
  "nat \<Rightarrow> (pystr \<Rightarrow> app \<Rightarrow> (exn + pystr) \<times> app) \<Rightarrow> nat \<Rightarrow> pystr \<Rightarrow> app
   \<Rightarrow> (exn + pystr) \<times> app" where
  "cache_data ttl f t key st =
     (case cache_lookup ttl t (cache st) key of
        Some v \<Rightarrow> (Inr v, st)
      | None \<Rightarrow>
          (case f key st of
             (Inr v, st') \<Rightarrow> (Inr v, st'\<lparr>cache := (cache st')(key \<mapsto> (v, t))\<rparr>)
           | (Inl e, st') \<Rightarrow> (Inl e, st')))"

definition process_research :: "env \<Rightarrow> nat \<Rightarrow> pystr \<Rightarrow> app \<Rightarrow> (exn + pystr) \<times> app" where
  "process_research env = cache_data CACHE_TIME (process_research_body env)"

section \<open>The page\<close>

text \<open>
  The loop over the stream:
  \<^verbatim>\<open>
    for chunk in proofread_stream:
        if chunk.get('content'):
            full_response += chunk['content']
            article_placeholder.markdown(full_response + cursor)
  \<close>
  where \<open>cursor\<close> is the one-character text U+258C. A value is true when it is a text that
  is not empty.
\<close>

definition cursor :: pystr where
  "cursor = [9612]"

fun stream_loop :: "chunk list \<Rightarrow> pystr \<Rightarrow> app \<Rightarrow> pystr \<times> app" where
  "stream_loop [] full_response st = (full_response, st)"
| "stream_loop (c # cs) full_response st =
     (case chunk_get c ''content'' of
        None \<Rightarrow> stream_loop cs full_response st
      | Some s \<Rightarrow>
          if s \<noteq> [] then
            stream_loop cs (full_response @ s)
              (st\<lparr>placeholder := placeholder st @ [full_response @ s @ cursor]\<rparr>)
          else stream_loop cs full_response st)"

text \<open>
  The \<open>try\<close> block of the submit branch of \<open>main\<close>: validation, the cached pipeline, the
  streamed proofreading, and only then the assignment to the session state.
\<close>

definition msg_searching :: pystr where
  "msg_searching = [128269] @ u '' Realizando pesquisa web...''"

definition msg_writing :: pystr where
  "msg_writing = [9997, 65039] @ u '' Gerando artigo em tempo real...''"

definition msg_complete :: pystr where
  "msg_complete = u ''Artigo completo! '' @ [9989]"

definition submit_try :: "env \<Rightarrow> nat \<Rightarrow> pystr \<Rightarrow> app \<Rightarrow> (exn + unit) \<times> app" where
  "submit_try env t query_input st =
     (case validate_input query_input of
        Inl e \<Rightarrow> (Inl e, st)
      | Inr clean_query \<Rightarrow>
          (case process_research env t clean_query (st_show (Write msg_searching) st) of
             (Inl e, st1) \<Rightarrow> (Inl e, st1)
           | (Inr article_draft, st1) \<Rightarrow>
               (let st2 = st_show (Write msg_writing) st1;
                    content = u ''Revise:'' @ [10] @ article_draft;
                    (chunks, failure) =
                      client_run_stream env (length (stage_calls st2)) proofreader_agent content;
                    st3 = st2\<lparr>stage_calls := stage_calls st2 @ [(proofreader_agent, content)]\<rparr>;
                    (full_response, st4) = stream_loop chunks [] st3
                in case failure of
                     Some e \<Rightarrow> (Inl e, st4)
                   | None \<Rightarrow>
                       (Inr (),
                        st_show (StatusComplete msg_complete)
                          (st4\<lparr>placeholder := placeholder st4 @ [full_response],
                                article := Some full_response\<rparr>)))))"

text \<open>
  The submit branch with its handler \<^verbatim>\<open>except Exception as e: st.error(f"Erro: {str(e)}")\<close>.
\<close>

definition submit :: "env \<Rightarrow> nat \<Rightarrow> pystr \<Rightarrow> app \<Rightarrow> app" where
  "submit env t query_input st =
     (case submit_try env t query_input st of
        (Inr _, st') \<Rightarrow> st'
      | (Inl e, st') \<Rightarrow> st_show (Error (u ''Erro: '' @ str_exn e)) st')"

text \<open>
  One run of the script. The page is drawn afresh; the article key is created empty
  when it is absent; the clear button empties the session state and runs the script again
  with no button pressed; the submit button, with a topic that is not empty, runs the
  submit branch; at the end an article that is not empty is shown and offered for
  download.
\<close>

record inputs =
  query_input :: pystr
  submit_btn :: bool
  clear_btn :: bool

definition start_page :: "app \<Rightarrow> app" where
  "start_page st =
     (let st1 = st\<lparr>page := [Title ([128196] @ u '' Gerador de Artigos''), Markdown (u ''---'')],
                    placeholder := []\<rparr>
      in if article st1 = None then st1\<lparr>article := Some []\<rparr> else st1)"

definition show_article :: "app \<Rightarrow> app" where
  "show_article st =
     (case article st of
        None \<Rightarrow> st
      | Some a \<Rightarrow>
          if a \<noteq> [] then
            st_show (Download a)
              (st_show (Markdown a)
                (st_show (Subheader (u ''Seu Artigo Pronto'')) (st_show (Markdown (u ''---'')) st)))
          else st)"

definition main :: "env \<Rightarrow> nat \<Rightarrow> inputs \<Rightarrow> app \<Rightarrow> app" where
  "main env t inp st =
     (if clear_btn inp then show_article (start_page ((start_page st)\<lparr>article := None\<rparr>))
      else if submit_btn inp \<and> query_input inp \<noteq> [] then
        show_article (submit env t (query_input inp) (start_page st))
      else show_article (start_page st))"

text \<open>
  The words of the specification about the stream: the texts of the chunks that have
  one, in arrival order.
\<close>

definition text_chunks :: "chunk list \<Rightarrow> pystr list" where
  "text_chunks chunks = List.map_filter (\<lambda>c. chunk_get c ''content'') chunks"

text \<open>Inputs for the concrete runs below.\<close>

definition app0 :: app where
  "app0 = \<lparr>stage_calls = [], app_log = [], cache = Map.empty, article = None, page = [],
           placeholder = []\<rparr>"

definition topic0 :: inputs where
  "topic0 = \<lparr>query_input = u ''clima hoje'', submit_btn = True, clear_btn = False\<rparr>"

definition ola_chunks :: "chunk list" where
  "ola_chunks =
     [ [''delim'' \<mapsto> Some (u ''start'')],
      [''content'' \<mapsto> Some (u ''Ol'')],
      [''content'' \<mapsto> None],
      [''content'' \<mapsto> Some ([225] @ u '', '')],
      [''content'' \<mapsto> Some (u ''mundo'')],
      [''delim'' \<mapsto> Some (u ''end'')]]"

text \<open>
  A runtime whose stages answer; the proofreading stream yields the chunks above.
\<close>

definition env_ok :: env where
  "env_ok =
     \<lparr>client_run = (\<lambda>n a c. Inr (u ''texto'')),
      client_run_stream = (\<lambda>n a c. (ola_chunks, None))\<rparr>"

text \<open>A runtime whose drafting stage raises.\<close>

definition env_draft_fails :: env where
  "env_draft_fails =
     \<lparr>client_run = (\<lambda>n a c. if a = writer_agent then Inl (OtherError (u ''model down''))
                              else Inr (u ''texto'')),
      client_run_stream = (\<lambda>n a c. (ola_chunks, None))\<rparr>"

text \<open>A runtime whose proofreading stream breaks after its first text chunk.\<close>

definition env_stream_breaks :: env where
  "env_stream_breaks =
     \<lparr>client_run = (\<lambda>n a c. Inr (u ''texto'')),
      client_run_stream = (\<lambda>n a c. (take 2 ola_chunks, Some (OtherError (u ''connection lost''))))\<rparr>"

section \<open>Properties of the string functions\<close>

lemma replace_char_append:
  "replace_char c n (xs @ ys) = replace_char c n xs @ replace_char c n ys"
  by (simp add: replace_char_def)

lemma html_escape_Nil: "html_escape [] = []"
  by (simp add: html_escape_def replace_char_def)

lemma html_escape_single: "html_escape [c] = escape_char c"
  by (simp add: html_escape_def replace_char_def escape_char_def u_def)

lemma html_escape_append: "html_escape (xs @ ys) = html_escape xs @ html_escape ys"
  by (simp add: html_escape_def replace_char_append)

lemma html_escape_Cons: "html_escape (c # s) = escape_char c @ html_escape s"
  using html_escape_append [of "[c]" s] by (simp add: html_escape_single)

text \<open>The five sequential replacements amount to one pass over the text.\<close>

lemma html_escape_one_pass: "html_escape s = concat (map escape_char s)"
  by (induction s) (simp_all add: html_escape_Nil html_escape_Cons)

lemma unescape_escape_char: "foldr unescape_step (escape_char c) acc = c # acc"
  by (simp add: escape_char_def unescape_step_def u_def)

lemma html_unescape_escape: "html_unescape (html_escape s) = s"
  by (induction s)
    (simp_all add: html_unescape_def html_escape_Nil html_escape_Cons unescape_escape_char)

lemma strip_Nil: "strip [] = []"
  by (simp add: strip_def)

lemma length_strip_le: "length (strip s) \<le> length s"
proof -
  have "length (strip s) \<le> length (dropWhile py_isspace s)"
    unfolding strip_def using length_dropWhile_le [of py_isspace "rev (dropWhile py_isspace s)"]
    by simp
  also have "\<dots> \<le> length s"
    by (rule length_dropWhile_le)
  finally show ?thesis .
qed

lemma strip_padded_right:
  "\<not> py_isspace (hd s) \<Longrightarrow> \<not> py_isspace (last s) \<Longrightarrow> s \<noteq> [] \<Longrightarrow> py_isspace c
   \<Longrightarrow> strip (s @ replicate n c) = s"
proof -
  assume h: "\<not> py_isspace (hd s)" and l: "\<not> py_isspace (last s)" and ne: "s \<noteq> []"
    and c: "py_isspace c"
  from ne h have d1: "dropWhile py_isspace (s @ replicate n c) = s @ replicate n c"
    by (cases s) simp_all
  have d2: "dropWhile py_isspace (replicate n c @ rev s) = dropWhile py_isspace (rev s)"
    using c by (induction n) simp_all
  from ne l have d3: "dropWhile py_isspace (rev s) = rev s"
    by (cases s rule: rev_cases) simp_all
  show ?thesis
    by (simp add: strip_def d1 d2 d3)
qed

section \<open>The validator\<close>



text \<open>
  C2, as the specification words it, asks for acceptance whenever the trimmed length is
  in [5, 500]. The upper bound of the code is on the untrimmed input: five letters
  followed by 496 blanks have trimmed length 5 and are rejected as too long.
\<close>

theorem validate_input_padded_counterexample:
  "5 \<le> length (strip (u ''abcde'' @ replicate 496 32))
   \<and> length (strip (u ''abcde'' @ replicate 496 32)) \<le> 500
   \<and> validate_input (u ''abcde'' @ replicate 496 32) = Inl (ValueError msg_too_long)"
proof -
  have s: "strip (u ''abcde'' @ replicate 496 32) = u ''abcde''"
    by (rule strip_padded_right) (simp_all add: u_def py_isspace_def)
  show ?thesis
    by (simp add: validate_input_def MAX_QUERY_LENGTH_def s) (simp add: u_def)
qed

text \<open>
  C2, amended: for every input whose trimmed length is at least 5 and whose untrimmed
  length is at most 500, \<open>validate_input\<close> accepts and returns the escaped trimmed input,
  and reading the entities back gives the trimmed input again.
\<close>

theorem validate_input_accepts:
  assumes "5 \<le> length (strip query)" and "length query \<le> 500"
  shows "validate_input query = Inr (html_escape (strip query))
         \<and> html_unescape (html_escape (strip query)) = strip query"
proof -
  from assms(1) have "query \<noteq> []"
    by (auto simp: strip_Nil)
  with assms show ?thesis
    by (simp add: validate_input_def MAX_QUERY_LENGTH_def html_unescape_escape)
qed

theorem validate_input_accepts_witness:
  "5 \<le> length (strip (u '' a<b & c ''))
   \<and> length (u '' a<b & c '') \<le> 500
   \<and> validate_input (u '' a<b & c '') = Inr (u ''a&lt;b &amp; c'')
   \<and> html_unescape (u ''a&lt;b &amp; c'') = u ''a<b & c''"
proof -
  have s: "strip (u '' a<b & c '') = u ''a<b & c''"
    by (simp add: strip_def u_def py_isspace_def)
  have e: "html_escape (u ''a<b & c'') = u ''a&lt;b &amp; c''"
    by (simp add: html_escape_def replace_char_def u_def)
  have h1: "5 \<le> length (strip (u '' a<b & c ''))"
    by (simp add: s) (simp add: u_def)
  have h2: "length (u '' a<b & c '') \<le> 500"
    by (simp add: u_def)
  from validate_input_accepts [OF h1 h2] h1 h2 show ?thesis
    by (simp add: s e)
qed

section \<open>The web search adapter: the loop\<close>

lemma getitem_href: "well_formed r \<Longrightarrow> getitem r ''href'' = Inr (url r)"
  by (auto simp: well_formed_def getitem_def url_def)

lemma news_entry_block: "well_formed r \<Longrightarrow> news_entry r = Inr (block r)"
  by (auto simp: well_formed_def news_entry_def getitem_def block_def)

text \<open>
  On well-formed results the loop appends the entries of the results whose url was not
  seen, in order.
\<close>

lemma dedup_loop_unseen:
  "\<forall>r\<in>set rs. well_formed r \<Longrightarrow>
   dedup_loop rs seen acc = Inr (acc @ map block (unseen seen rs))"
  by (induction rs arbitrary: seen acc) (simp_all add: getitem_href news_entry_block)

text \<open>
  The results kept are those at the positions where the url occurs for the first time.
\<close>

lemma unseen_positions:
  "unseen (url ` set pre) rs =
     map (\<lambda>i. rs ! i)
       (filter (\<lambda>i. url (rs ! i) \<notin> url ` set (pre @ take i rs)) [0..<length rs])"
proof (induction rs arbitrary: pre)
  case Nil
  show ?case by simp
next
  case (Cons r rs)
  have ins: "insert (url r) (url ` set pre) = url ` set (pre @ [r])"
    by auto
  have shift: "map (\<lambda>i. (r # rs) ! i)
       (filter (\<lambda>i. url ((r # rs) ! i) \<notin> url ` set (pre @ take i (r # rs))) (map Suc [0..<length rs]))
     = map (\<lambda>i. rs ! i)
       (filter (\<lambda>i. url (rs ! i) \<notin> url ` set ((pre @ [r]) @ take i rs)) [0..<length rs])"
    by (simp add: filter_map comp_def)
  have upt: "[0..<length (r # rs)] = 0 # map Suc [0..<length rs]"
    by (simp add: upt_conv_Cons map_Suc_upt del: upt_Suc)
  show ?case
  proof (cases "url r \<in> url ` set pre")
    case True
    then have same: "url ` set (pre @ [r]) = url ` set pre"
      by auto
    from True have "unseen (url ` set pre) (r # rs) = unseen (url ` set (pre @ [r])) rs"
      by (simp only: unseen.simps same if_True)
    also have "\<dots> = map (\<lambda>i. rs ! i)
       (filter (\<lambda>i. url (rs ! i) \<notin> url ` set ((pre @ [r]) @ take i rs)) [0..<length rs])"
      by (rule Cons.IH)
    finally show ?thesis
      unfolding upt using True shift [symmetric] by (simp del: upt_Suc map_map append_assoc)
  next
    case False
    then have "unseen (url ` set pre) (r # rs) = r # unseen (url ` set (pre @ [r])) rs"
      by (simp only: unseen.simps ins if_False)
    also have "unseen (url ` set (pre @ [r])) rs = map (\<lambda>i. rs ! i)
       (filter (\<lambda>i. url (rs ! i) \<notin> url ` set ((pre @ [r]) @ take i rs)) [0..<length rs])"
      by (rule Cons.IH)
    finally show ?thesis
      unfolding upt using False shift [symmetric] by (simp del: upt_Suc map_map append_assoc)
  qed
qed

lemma unseen_first_occurrences: "unseen {} rs = first_occurrences rs"
  using unseen_positions [of "[]" rs] by (simp add: first_occurrences_def)

lemma set_unseen: "url ` set (unseen seen rs) = url ` set rs - seen"
  by (induction rs arbitrary: seen) auto

lemma distinct_unseen: "distinct (map url (unseen seen rs))"
proof (induction rs arbitrary: seen)
  case Nil
  show ?case by simp
next
  case (Cons r rs)
  have "url r \<notin> url ` set (unseen (insert (url r) seen) rs)"
    by (simp add: set_unseen)
  with Cons show ?case by simp
qed

lemma subseq_unseen: "subseq (unseen seen rs) rs"
  by (induction rs arbitrary: seen) auto







section \<open>The web search adapter: attempts and results\<close>

text \<open>
  The decorated function returns on its first attempt: the handler inside it turns every
  exception into a returned text, so the decorator never sees one.
\<close>

lemma retry_loop_returns: "f w = (Inr v, w') \<Longrightarrow> retry_loop n d f w = (Returned v, w')"
  by (cases n) simp_all

lemma search_web_cases:
  "search_web ddgs d query w =
     (case search_web_try (ddgs (length (ddgs_calls w)) (query @ u '' after:'' @ d)) of
        Inr s \<Rightarrow> (Returned s, w\<lparr>ddgs_calls := ddgs_calls w @ [query @ u '' after:'' @ d]\<rparr>)
      | Inl e \<Rightarrow> (Returned (search_error e),
          w\<lparr>ddgs_calls := ddgs_calls w @ [query @ u '' after:'' @ d],
            error_log := error_log w @ [search_error e]\<rparr>))"
proof (cases "search_web_try (ddgs (length (ddgs_calls w)) (query @ u '' after:'' @ d))")
  case (Inl e)
  then have "search_web_body ddgs d query w
      = (Inr (search_error e), w\<lparr>ddgs_calls := ddgs_calls w @ [query @ u '' after:'' @ d],
            error_log := error_log w @ [search_error e]\<rparr>)"
    by (simp add: search_web_body_def Let_def)
  then show ?thesis
    by (simp add: search_web_def retry_def retry_loop_returns Inl)
next
  case (Inr s)
  then have "search_web_body ddgs d query w
      = (Inr s, w\<lparr>ddgs_calls := ddgs_calls w @ [query @ u '' after:'' @ d]\<rparr>)"
    by (simp add: search_web_body_def Let_def)
  then show ?thesis
    by (simp add: search_web_def retry_def retry_loop_returns Inr)
qed

lemma search_web_single_call:
  "ddgs_calls (snd (search_web ddgs d query w)) = ddgs_calls w @ [query @ u '' after:'' @ d]
   \<and> sleeps (snd (search_web ddgs d query w)) = sleeps w"
  by (simp add: search_web_cases split: sum.splits)

text \<open>
  The decorator itself does retry a function that raises: three attempts, two delays,
  then \<open>RetryError\<close>.
\<close>

lemma retry_three_attempts:
  "retry 3 1 (\<lambda>w. (Inl e, w\<lparr>ddgs_calls := ddgs_calls w @ [q]\<rparr>)) net0
   = (RetryError e :: pystr retried, \<lparr>ddgs_calls = [q, q, q], error_log = [], sleeps = [1, 1]\<rparr>)"
  by (simp add: retry_def numeral_2_eq_2 net0_def)

lemma search_web_well_formed:
  assumes "results \<noteq> []" and "\<forall>r\<in>set results. well_formed r"
    and "ddgs (length (ddgs_calls w)) (query @ u '' after:'' @ d) = Inr results"
  shows "fst (search_web ddgs d query w)
         = Returned (join [10, 10] (map block (first_occurrences results)))"
proof -
  from assms(1) obtain r rs where rs: "results = r # rs"
    by (cases results) auto
  have "unseen {} results \<noteq> []"
    by (simp add: rs)
  then have ne: "first_occurrences results \<noteq> []"
    by (simp add: unseen_first_occurrences)
  have "dedup_loop results {} [] = Inr (map block (first_occurrences results))"
    using dedup_loop_unseen [OF assms(2), of "{}" "[]"] by (simp add: unseen_first_occurrences)
  with assms(1,3) ne show ?thesis
    by (simp add: search_web_cases search_web_try_def)
qed




lemma url_samples:
  "url sample_a = u ''http://a/?x=1&y=2''" "url sample_b = u ''http://b''"
  "url sample_a_again = u ''http://a/?x=1&y=2''"
  by (simp_all add: url_def sample_a_def sample_b_def sample_a_again_def)

lemma well_formed_samples: "well_formed sample_a" "well_formed sample_b" "well_formed sample_a_again"
  by (simp_all add: well_formed_def sample_a_def sample_b_def sample_a_again_def)

lemma first_occurrences_samples:
  "first_occurrences [sample_a, sample_b, sample_a_again] = [sample_a, sample_b]"
proof -
  have "unseen {} [sample_a, sample_b, sample_a_again] = [sample_a, sample_b]"
    by (simp add: url_samples) (simp add: u_def)
  then show ?thesis
    by (simp only: unseen_first_occurrences)
qed

lemma block_sample_a:
  "block sample_a = u ''T'' @ [237] @ u ''tulo: A&lt;1&gt;'' @ [10] @ u ''URL: http://a/?x=1&y=2'' @ [10]
       @ u ''Descri'' @ [231, 227] @ u ''o: first'' @ [10]"
  by (simp add: block_def sample_a_def entry_text_def html_escape_one_pass escape_char_def u_def)

lemma block_sample_b:
  "block sample_b = u ''T'' @ [237] @ u ''tulo: B'' @ [10] @ u ''URL: http://b'' @ [10]
       @ u ''Descri'' @ [231, 227] @ u ''o: second'' @ [10]"
  by (simp add: block_def sample_b_def entry_text_def html_escape_one_pass escape_char_def u_def)

text \<open>
  C1: the specification has a failing provider call retried, up to 3 attempts with a
  delay of 1 between them, before \<open>search_web\<close> returns an error text. The code does
  not retry. With a provider whose first call raises and whose second call would return
  a result, \<open>search_web\<close> returns the error text after one call, having slept never.
\<close>

theorem search_web_no_retry:
  "flaky_ddgs 1 (u ''clima after:2024-01-01'') = Inr [sample_b]
   \<and> search_web flaky_ddgs (u ''2024-01-01'') (u ''clima'') net0
       = (Returned (u ''Erro na pesquisa: timeout''),
          \<lparr>ddgs_calls = [u ''clima after:2024-01-01''],
           error_log = [u ''Erro na pesquisa: timeout''], sleeps = []\<rparr>)"
  by (simp add: search_web_cases flaky_ddgs_def search_web_try_def net0_def search_error_def)
    (simp add: u_def sample_b_def)

text \<open>
  C3, as the specification words it, has each of title, url and description escaped.
  The url is written as it is: an ampersand in it stays an ampersand.
\<close>

theorem search_web_url_counterexample:
  "well_formed sample_a
   \<and> fst (search_web (\<lambda>n q. Inr [sample_a]) (u ''2024-01-01'') (u ''clima'') net0)
       = Returned (u ''T'' @ [237] @ u ''tulo: A&lt;1&gt;'' @ [10] @ u ''URL: http://a/?x=1&y=2'' @ [10]
       @ u ''Descri'' @ [231, 227] @ u ''o: first'' @ [10])
   \<and> block_all_escaped sample_a = u ''T'' @ [237] @ u ''tulo: A&lt;1&gt;'' @ [10] @ u ''URL: http://a/?x=1&amp;y=2'' @ [10]
       @ u ''Descri'' @ [231, 227] @ u ''o: first'' @ [10]
   \<and> fst (search_web (\<lambda>n q. Inr [sample_a]) (u ''2024-01-01'') (u ''clima'') net0)
       \<noteq> Returned (block_all_escaped sample_a)"
proof -
  have wf: "\<forall>r\<in>set [sample_a]. well_formed r"
    by (simp add: well_formed_samples)
  have fo: "first_occurrences [sample_a] = [sample_a]"
    using unseen_first_occurrences [of "[sample_a]"] by simp
  have out: "fst (search_web (\<lambda>n q. Inr [sample_a]) (u ''2024-01-01'') (u ''clima'') net0)
      = Returned (block sample_a)"
    using search_web_well_formed [OF _ wf, of "\<lambda>n q. Inr [sample_a]"] by (simp add: fo)
  have esc: "block_all_escaped sample_a = u ''T'' @ [237] @ u ''tulo: A&lt;1&gt;'' @ [10] @ u ''URL: http://a/?x=1&amp;y=2'' @ [10]
       @ u ''Descri'' @ [231, 227] @ u ''o: first'' @ [10]"
    by (simp add: block_all_escaped_def sample_a_def html_escape_one_pass escape_char_def u_def)
  have "block sample_a \<noteq> block_all_escaped sample_a"
    unfolding block_sample_a esc by (simp add: u_def)
  with out esc show ?thesis
    by (simp add: well_formed_samples block_sample_a)
qed

text \<open>
  C3, amended: for every non-empty list of well-formed results, \<open>search_web\<close> formats
  each result that survives deduplication as three labelled lines: the escaped title, the
  url as the provider gave it, and the escaped description.
\<close>

theorem search_web_entry_format:
  assumes "results \<noteq> []" and "\<forall>r\<in>set results. well_formed r"
    and "ddgs (length (ddgs_calls w)) (query @ u '' after:'' @ d) = Inr results"
  shows "fst (search_web ddgs d query w)
         = Returned (join [10, 10]
             (map (\<lambda>r. u ''T'' @ [237] @ u ''tulo: '' @ html_escape (the (r ''title'')) @ [10]
                      @ u ''URL: '' @ the (r ''href'') @ [10]
                      @ u ''Descri'' @ [231, 227] @ u ''o: '' @ html_escape (the (r ''body''))
                      @ [10])
                (first_occurrences results)))"
proof -
  have "block = (\<lambda>r. u ''T'' @ [237] @ u ''tulo: '' @ html_escape (the (r ''title'')) @ [10]
                      @ u ''URL: '' @ the (r ''href'') @ [10]
                      @ u ''Descri'' @ [231, 227] @ u ''o: '' @ html_escape (the (r ''body''))
                      @ [10])"
    by (rule ext) (simp add: block_def entry_text_def)
  with search_web_well_formed [where ddgs = ddgs and w = w and query = query and d = d, OF assms] show ?thesis
    by simp
qed

theorem search_web_entry_format_witness:
  "well_formed sample_a \<and> well_formed sample_b \<and> well_formed sample_a_again
   \<and> fst (search_web (\<lambda>n q. Inr [sample_a, sample_b, sample_a_again])
          (u ''2024-01-01'') (u ''clima'') net0)
       = Returned
           (u ''T'' @ [237] @ u ''tulo: A&lt;1&gt;'' @ [10] @ u ''URL: http://a/?x=1&y=2'' @ [10]
            @ u ''Descri'' @ [231, 227] @ u ''o: first'' @ [10]
            @ [10, 10]
            @ u ''T'' @ [237] @ u ''tulo: B'' @ [10] @ u ''URL: http://b'' @ [10]
            @ u ''Descri'' @ [231, 227] @ u ''o: second'' @ [10])"
proof -
  have ne: "[sample_a, sample_b, sample_a_again] \<noteq> []"
    by simp
  have wf: "\<forall>r\<in>set [sample_a, sample_b, sample_a_again]. well_formed r"
    by (simp add: well_formed_samples)
  have p: "(\<lambda>n q. Inr [sample_a, sample_b, sample_a_again]) (length (ddgs_calls net0))
       (u ''clima'' @ u '' after:'' @ u ''2024-01-01'') = Inr [sample_a, sample_b, sample_a_again]"
    by simp
  have "fst (search_web (\<lambda>n q. Inr [sample_a, sample_b, sample_a_again])
          (u ''2024-01-01'') (u ''clima'') net0)
        = Returned (join [10, 10] [block sample_a, block sample_b])"
    using search_web_entry_format [where ddgs = "\<lambda>n q. Inr [sample_a, sample_b, sample_a_again]"
        and w = net0 and query = "u ''clima''" and d = "u ''2024-01-01''", OF ne wf p]
    by (simp add: first_occurrences_samples block_def entry_text_def)
  then show ?thesis
    by (simp add: well_formed_samples block_sample_a block_sample_b)
qed

text \<open>
  C7: for every list of well-formed results, possibly with duplicate urls, the output of
  \<open>search_web\<close> is made of the entries of the first occurrences, in the provider's
  order: no url occurs twice among them, every url of the list occurs among them, and
  they are a subsequence of the list. (For the empty list there is no entry, and the
  output is the fixed text of C8.)
\<close>

theorem search_web_dedup:
  assumes "\<forall>r\<in>set results. well_formed r"
    and "ddgs (length (ddgs_calls w)) (query @ u '' after:'' @ d) = Inr results"
  shows "fst (search_web ddgs d query w)
           = Returned (if results = [] then u ''Nenhum resultado encontrado.''
                       else join [10, 10] (map block (first_occurrences results)))
         \<and> distinct (map url (first_occurrences results))
         \<and> set (map url (first_occurrences results)) = set (map url results)
         \<and> subseq (first_occurrences results) results"
proof -
  have out: "fst (search_web ddgs d query w)
           = Returned (if results = [] then u ''Nenhum resultado encontrado.''
                       else join [10, 10] (map block (first_occurrences results)))"
  proof (cases "results = []")
    case True
    with assms(2) show ?thesis
      by (simp add: search_web_cases search_web_try_def no_results_def)
  next
    case False
    from search_web_well_formed [where ddgs = ddgs and w = w and query = query and d = d,
        OF False assms] False
    show ?thesis
      by simp
  qed
  from distinct_unseen [of "{}" results] set_unseen [of "{}" results]
    subseq_unseen [of "{}" results]
  have "distinct (map url (first_occurrences results))"
    "set (map url (first_occurrences results)) = set (map url results)"
    "subseq (first_occurrences results) results"
    by (simp_all add: unseen_first_occurrences)
  with out show ?thesis
    by simp
qed

theorem search_web_dedup_witness:
  "well_formed sample_a \<and> well_formed sample_b \<and> well_formed sample_a_again
   \<and> url sample_a_again = url sample_a
   \<and> first_occurrences [sample_a, sample_b, sample_a_again] = [sample_a, sample_b]
   \<and> fst (search_web (\<lambda>n q. Inr [sample_a, sample_b, sample_a_again])
          (u ''2024-01-01'') (u ''clima'') net0)
       = Returned (block sample_a @ [10, 10] @ block sample_b)
   \<and> distinct (map url (first_occurrences [sample_a, sample_b, sample_a_again]))
   \<and> subseq (first_occurrences [sample_a, sample_b, sample_a_again])
        [sample_a, sample_b, sample_a_again]"
proof -
  have ne: "[sample_a, sample_b, sample_a_again] \<noteq> []"
    by simp
  have wf: "\<forall>r\<in>set [sample_a, sample_b, sample_a_again]. well_formed r"
    by (simp add: well_formed_samples)
  have p: "(\<lambda>n q. Inr [sample_a, sample_b, sample_a_again]) (length (ddgs_calls net0))
       (u ''clima'' @ u '' after:'' @ u ''2024-01-01'') = Inr [sample_a, sample_b, sample_a_again]"
    by simp
  show ?thesis
    using search_web_dedup [where ddgs = "\<lambda>n q. Inr [sample_a, sample_b, sample_a_again]"
        and w = net0 and query = "u ''clima''" and d = "u ''2024-01-01''", OF wf p]
    by (simp add: first_occurrences_samples well_formed_samples url_samples)
qed

text \<open>
  C8: when the provider returns no result, \<open>search_web\<close> returns the fixed text
  "Nenhum resultado encontrado.", which is not the empty text.
\<close>

theorem search_web_no_results:
  assumes "ddgs (length (ddgs_calls w)) (query @ u '' after:'' @ d) = Inr []"
  shows "fst (search_web ddgs d query w) = Returned (u ''Nenhum resultado encontrado.'')
         \<and> fst (search_web ddgs d query w) \<noteq> Returned []"
  using assms by (simp add: search_web_cases search_web_try_def no_results_def) (simp add: u_def)

theorem search_web_no_results_witness:
  "fst (search_web (\<lambda>n q. Inr []) (u ''2024-01-01'') (u ''clima'') net0)
     = Returned (u ''Nenhum resultado encontrado.'')
   \<and> fst (search_web (\<lambda>n q. Inr []) (u ''2024-01-01'') (u ''clima'') net0) \<noteq> Returned []"
proof -
  have p: "(\<lambda>n q. Inr []) (length (ddgs_calls net0))
       (u ''clima'' @ u '' after:'' @ u ''2024-01-01'') = Inr []"
    by simp
  show ?thesis
    by (rule search_web_no_results [where ddgs = "\<lambda>n q. Inr []" and w = net0
        and query = "u ''clima''" and d = "u ''2024-01-01''", OF p])
qed



section \<open>The stream loop and the page\<close>

text \<open>
  The loop returns the texts of the chunks that have one, joined in arrival order, and
  touches nothing but the placeholder.
\<close>

lemma text_chunks_Nil: "text_chunks [] = []"
  by (simp add: text_chunks_def)

lemma text_chunks_Cons:
  "text_chunks (c # cs) =
     (case chunk_get c ''content'' of None \<Rightarrow> text_chunks cs | Some s \<Rightarrow> s # text_chunks cs)"
  by (simp add: text_chunks_def split: option.splits)

lemma stream_loop_result:
  "\<exists>shown. stream_loop chunks full st
     = (full @ concat (text_chunks chunks), st\<lparr>placeholder := placeholder st @ shown\<rparr>)"
proof (induction chunks arbitrary: full st)
  case Nil
  show ?case by (rule exI [of _ "[]"]) (simp add: text_chunks_Nil)
next
  case (Cons c cs)
  show ?case
  proof (cases "chunk_get c ''content''")
    case None
    with Cons [of full st] show ?thesis
      by (simp add: text_chunks_Cons)
  next
    case (Some s)
    show ?thesis
    proof (cases "s = []")
      case True
      with Some Cons [of full st] show ?thesis
        by (simp add: text_chunks_Cons)
    next
      case False
      from Cons [of "full @ s" "st\<lparr>placeholder := placeholder st @ [full @ s @ cursor]\<rparr>"]
      obtain shown where "stream_loop cs (full @ s)
          (st\<lparr>placeholder := placeholder st @ [full @ s @ cursor]\<rparr>)
        = ((full @ s) @ concat (text_chunks cs),
           st\<lparr>placeholder := placeholder st @ [full @ s @ cursor]\<rparr>
             \<lparr>placeholder := placeholder (st\<lparr>placeholder := placeholder st @ [full @ s @ cursor]\<rparr>) @ shown\<rparr>)"
        by blast
      with Some False have "stream_loop (c # cs) full st
        = (full @ concat (text_chunks (c # cs)),
           st\<lparr>placeholder := placeholder st @ ((full @ s @ cursor) # shown)\<rparr>)"
        by (simp add: text_chunks_Cons)
      then show ?thesis
        by blast
    qed
  qed
qed

lemma stream_loop_skip:
  "chunk_get c ''content'' = None \<Longrightarrow> stream_loop (c # cs) full st = stream_loop cs full st"
  by simp

lemma article_start_page:
  "article (start_page st) = Some (case article st of None \<Rightarrow> [] | Some a \<Rightarrow> a)"
  by (simp add: start_page_def Let_def split: option.splits)

lemma start_page_fields:
  "app_log (start_page st) = app_log st" "cache (start_page st) = cache st"
  "stage_calls (start_page st) = stage_calls st" "placeholder (start_page st) = []"
  by (simp_all add: start_page_def Let_def)

lemma show_article_fields:
  "article (show_article st) = article st" "app_log (show_article st) = app_log st"
  "cache (show_article st) = cache st" "stage_calls (show_article st) = stage_calls st"
  "placeholder (show_article st) = placeholder st"
  by (simp_all add: show_article_def st_show_def split: option.splits)

lemma set_page_show_article: "set (page st) \<subseteq> set (page (show_article st))"
  by (auto simp: show_article_def st_show_def split: option.splits)

lemma st_show_fields:
  "article (st_show e st) = article st" "app_log (st_show e st) = app_log st"
  "cache (st_show e st) = cache st" "stage_calls (st_show e st) = stage_calls st"
  "placeholder (st_show e st) = placeholder st" "page (st_show e st) = page st @ [e]"
  by (simp_all add: st_show_def)

section \<open>The pipeline\<close>

text \<open>
  The three stage calls of the block, written out: each call is recorded, and the first
  exception ends the block.
\<close>

lemma process_research_try_cases:
  "process_research_try env query st =
     (let c1 = u ''Pesquise sobre: '' @ query; n = length (stage_calls st) in
      case client_run env n web_search_agent c1 of
        Inl e \<Rightarrow> (Inl e, st\<lparr>stage_calls := stage_calls st @ [(web_search_agent, c1)]\<rparr>)
      | Inr raw \<Rightarrow>
          (let c2 = u ''Analise estes dados:'' @ [10] @ raw in
           case client_run env (Suc n) researcher_agent c2 of
             Inl e \<Rightarrow> (Inl e, st\<lparr>stage_calls := stage_calls st
                 @ [(web_search_agent, c1), (researcher_agent, c2)]\<rparr>)
           | Inr clean \<Rightarrow>
               (let c3 = u ''Crie um artigo usando:'' @ [10] @ clean in
                (client_run env (Suc (Suc n)) writer_agent c3,
                 st\<lparr>stage_calls := stage_calls st
                   @ [(web_search_agent, c1), (researcher_agent, c2), (writer_agent, c3)]\<rparr>))))"
  by (simp add: process_research_try_def run_stage_def debug_step_def DEBUG_MODE_def Let_def
      split: sum.splits)

lemma process_research_body_fields:
  "article (snd (process_research_body env q st)) = article st"
  "cache (snd (process_research_body env q st)) = cache st"
  "page (snd (process_research_body env q st)) = page st"
  "placeholder (snd (process_research_body env q st)) = placeholder st"
  by (simp_all add: process_research_body_def process_research_try_cases Let_def
      split: sum.splits)

text \<open>
  When the body raises, the exception is the one the last stage call raised, and one
  line was logged; when it returns, the three stages were called in order and nothing
  was logged.
\<close>

lemma process_research_body_raises:
  assumes "process_research_body env q st = (Inl e, st')"
  shows "app_log st' = app_log st @ [u ''Erro no processamento: '' @ str_exn e]
         \<and> (\<exists>a c. last (stage_calls st') = (a, c)
              \<and> client_run env (length (stage_calls st') - 1) a c = Inl e)"
  using assms
  by (auto simp: process_research_body_def process_research_try_cases Let_def
      split: sum.splits)

lemma process_research_body_returns:
  assumes "process_research_body env q st = (Inr d, st')"
  shows "app_log st' = app_log st
         \<and> map fst (drop (length (stage_calls st)) (stage_calls st'))
             = [web_search_agent, researcher_agent, writer_agent]"
  using assms
  by (auto simp: process_research_body_def process_research_try_cases Let_def
      split: sum.splits)

lemma process_research_body_first_call:
  "\<exists>rest. stage_calls (snd (process_research_body env q st))
      = stage_calls st @ (web_search_agent, u ''Pesquise sobre: '' @ q) # rest"
  by (simp add: process_research_body_def process_research_try_cases Let_def
      split: sum.splits)

text \<open>
  The cached function: a fresh entry answers, anything else runs the body.
\<close>

lemma process_research_hit:
  "cache_lookup CACHE_TIME t (cache st) q = Some v \<Longrightarrow> process_research env t q st = (Inr v, st)"
  by (simp add: process_research_def cache_data_def)

lemma process_research_miss:
  "cache_lookup CACHE_TIME t (cache st) q = None \<Longrightarrow>
   process_research env t q st =
     (case process_research_body env q st of
        (Inr v, st') \<Rightarrow> (Inr v, st'\<lparr>cache := (cache st')(q \<mapsto> (v, t))\<rparr>)
      | (Inl e, st') \<Rightarrow> (Inl e, st'))"
  by (simp add: process_research_def cache_data_def)

lemma process_research_fields:
  "article (snd (process_research env t q st)) = article st"
  "page (snd (process_research env t q st)) = page st"
  "placeholder (snd (process_research env t q st)) = placeholder st"
  using process_research_body_fields [of env q st]
  by (auto simp: process_research_def cache_data_def split: option.splits sum.splits prod.splits)

lemma process_research_raises:
  assumes "process_research env t q st = (Inl e, st')"
  shows "process_research_body env q st = (Inl e, st')"
  using assms
  by (auto simp: process_research_def cache_data_def split: option.splits sum.splits prod.splits)

lemma process_research_returns_log:
  assumes "process_research env t q st = (Inr d, st')"
  shows "app_log st' = app_log st"
proof (cases "cache_lookup CACHE_TIME t (cache st) q")
  case None
  with assms obtain st'' where b: "process_research_body env q st = (Inr d, st'')"
    and s: "st' = st''\<lparr>cache := (cache st'')(q \<mapsto> (d, t))\<rparr>"
    by (auto simp: process_research_miss split: sum.splits prod.splits)
  from process_research_body_returns [OF b] s show ?thesis
    by simp
next
  case (Some v)
  with assms show ?thesis
    by (simp add: process_research_hit)
qed

section \<open>One run of the page\<close>

lemma validate_input_nonempty: "validate_input qi = Inr q \<Longrightarrow> qi \<noteq> []"
  by (auto simp: validate_input_def)

lemma main_submit:
  assumes "submit_btn inp" and "\<not> clear_btn inp" and "validate_input (query_input inp) = Inr q"
  shows "main env t inp st = show_article (submit env t (query_input inp) (start_page st))"
  using assms validate_input_nonempty [OF assms(3)] by (simp add: main_def)

lemma submit_research_raises:
  assumes "validate_input qi = Inr q"
    and "process_research env t q (st_show (Write msg_searching) st) = (Inl e, st1)"
  shows "submit env t qi st = st_show (Error (u ''Erro: '' @ str_exn e)) st1"
  using assms by (simp add: submit_def submit_try_def)

lemma submit_streams:
  assumes "validate_input qi = Inr q"
    and "process_research env t q (st_show (Write msg_searching) st) = (Inr draft, st1)"
    and "client_run_stream env (length (stage_calls st1)) proofreader_agent
           (u ''Revise:'' @ [10] @ draft) = (chunks, failure)"
  shows "\<exists>shown st2. article st2 = article st1 \<and> app_log st2 = app_log st1
          \<and> placeholder st2 = placeholder st1 @ shown
          \<and> submit env t qi st =
             (case failure of
                Some e \<Rightarrow> st_show (Error (u ''Erro: '' @ str_exn e)) st2
              | None \<Rightarrow>
                  st_show (StatusComplete msg_complete)
                    (st2\<lparr>placeholder := placeholder st2 @ [concat (text_chunks chunks)],
                          article := Some (concat (text_chunks chunks))\<rparr>))"
proof -
  let ?st3 = "(st_show (Write msg_writing) st1)\<lparr>stage_calls :=
      stage_calls (st_show (Write msg_writing) st1)
        @ [(proofreader_agent, u ''Revise:'' @ [10] @ draft)]\<rparr>"
  from stream_loop_result [of chunks "[]" ?st3] obtain shown where
    l: "stream_loop chunks [] ?st3
        = (concat (text_chunks chunks), ?st3\<lparr>placeholder := placeholder ?st3 @ shown\<rparr>)"
    by auto
  let ?st4 = "?st3\<lparr>placeholder := placeholder ?st3 @ shown\<rparr>"
  have "article ?st4 = article st1" "app_log ?st4 = app_log st1"
    "placeholder ?st4 = placeholder st1 @ shown"
    by (simp_all add: st_show_def)
  moreover have "submit env t qi st =
             (case failure of
                Some e \<Rightarrow> st_show (Error (u ''Erro: '' @ str_exn e)) ?st4
              | None \<Rightarrow>
                  st_show (StatusComplete msg_complete)
                    (?st4\<lparr>placeholder := placeholder ?st4 @ [concat (text_chunks chunks)],
                          article := Some (concat (text_chunks chunks))\<rparr>))"
    using assms l by (simp add: submit_def submit_try_def Let_def st_show_fields split: option.splits)
  ultimately show ?thesis
    by blast
qed

lemma validate_topic0: "validate_input (query_input topic0) = Inr (u ''clima hoje'')"
proof -
  have s: "strip (u ''clima hoje'') = u ''clima hoje''"
    by (simp add: strip_def u_def py_isspace_def)
  have e: "html_escape (u ''clima hoje'') = u ''clima hoje''"
    by (simp add: html_escape_one_pass escape_char_def u_def)
  show ?thesis
    by (simp add: topic0_def validate_input_def MAX_QUERY_LENGTH_def s e) (simp add: u_def)
qed

lemma cache_start_app0:
  "cache_lookup CACHE_TIME t (cache (st_show e (start_page app0))) q = None"
  by (simp add: cache_lookup_def st_show_fields start_page_fields app0_def)

lemma research_env_ok:
  "fst (process_research env_ok t (u ''clima hoje'') (st_show e (start_page app0)))
     = Inr (u ''texto'')"
  by (simp add: process_research_miss cache_start_app0 process_research_body_def
      process_research_try_cases env_ok_def)

lemma research_env_stream_breaks:
  "fst (process_research env_stream_breaks t (u ''clima hoje'') (st_show e (start_page app0)))
     = Inr (u ''texto'')"
  by (simp add: process_research_miss cache_start_app0 process_research_body_def
      process_research_try_cases env_stream_breaks_def)

lemma research_env_draft_fails:
  "fst (process_research env_draft_fails t (u ''clima hoje'') (st_show e (start_page app0)))
     = Inl (OtherError (u ''model down''))"
  by (simp add: process_research_miss cache_start_app0 process_research_body_def
      process_research_try_cases env_draft_fails_def)

lemma text_ola_chunks: "concat (text_chunks ola_chunks) = u ''Ol'' @ [225] @ u '', mundo''"
  by (simp add: ola_chunks_def text_chunks_Cons text_chunks_Nil chunk_get_def u_def)

text \<open>
  C4: in a run where the topic is valid, the pipeline returns a draft and the
  proofreading stream ends without an exception, the article of the session state is the
  concatenation, in arrival order, of the texts of the chunks that have one, and the last
  content of the placeholder is that same text, without the cursor. The loop turns the
  chunks "Ol", "a, " and "mundo" into "Ola, mundo", and a chunk whose content is
  \<open>None\<close> or missing leaves the loop where it was.
\<close>

theorem main_streaming_assembly:
  assumes "submit_btn inp" and "\<not> clear_btn inp"
    and "validate_input (query_input inp) = Inr q"
    and "process_research env t q (st_show (Write msg_searching) (start_page st0))
          = (Inr draft, st1)"
    and "client_run_stream env (length (stage_calls st1)) proofreader_agent
           (u ''Revise:'' @ [10] @ draft) = (chunks, None)"
  shows "article (main env t inp st0) = Some (concat (text_chunks chunks))
         \<and> last (placeholder (main env t inp st0)) = concat (text_chunks chunks)
         \<and> fst (stream_loop [ [''content'' \<mapsto> Some (u ''Ol'')], [''content'' \<mapsto> Some ([225] @ u '', '')],
                [''content'' \<mapsto> Some (u ''mundo'')]] [] st) = u ''Ol'' @ [225] @ u '', mundo''
         \<and> stream_loop ([''content'' \<mapsto> None] # cs) full st = stream_loop cs full st
         \<and> stream_loop (Map.empty # cs) full st = stream_loop cs full st"
proof -
  from submit_streams [OF assms(3,4,5)] obtain shown st2 where
    "submit env t (query_input inp) (start_page st0)
       = st_show (StatusComplete msg_complete)
           (st2\<lparr>placeholder := placeholder st2 @ [concat (text_chunks chunks)],
                 article := Some (concat (text_chunks chunks))\<rparr>)"
    by auto
  then have "article (main env t inp st0) = Some (concat (text_chunks chunks))"
    "last (placeholder (main env t inp st0)) = concat (text_chunks chunks)"
    by (simp_all add: main_submit [OF assms(1,2,3)] show_article_fields st_show_fields)
  then show ?thesis
    by (simp add: chunk_get_def u_def)
qed

theorem main_streaming_assembly_witness:
  "article (main env_ok 0 topic0 app0) = Some (u ''Ol'' @ [225] @ u '', mundo'')
   \<and> last (placeholder (main env_ok 0 topic0 app0)) = u ''Ol'' @ [225] @ u '', mundo''"
proof -
  let ?p = "process_research env_ok 0 (u ''clima hoje'')
      (st_show (Write msg_searching) (start_page app0))"
  have h1: "submit_btn topic0" and h2: "\<not> clear_btn topic0"
    by (simp_all add: topic0_def)
  have h4: "?p = (Inr (u ''texto''), snd ?p)"
    using research_env_ok [of 0 "Write msg_searching"] by (simp add: prod_eq_iff)
  have h5: "client_run_stream env_ok (length (stage_calls (snd ?p))) proofreader_agent
           (u ''Revise:'' @ [10] @ u ''texto'') = (ola_chunks, None)"
    by (simp add: env_ok_def)
  from main_streaming_assembly [OF h1 h2 validate_topic0 h4 h5] show ?thesis
    by (simp add: text_ola_chunks)
qed

text \<open>
  C5, as the specification words it, has every failing stage logged and re-raised. A
  failure of the proofreading stream is caught in \<open>main\<close> and shown on the page; nothing
  is written to the log.
\<close>

theorem main_stream_failure_counterexample:
  "snd (client_run_stream env_stream_breaks 3 proofreader_agent (u ''Revise:'' @ [10] @ u ''texto''))
     = Some (OtherError (u ''connection lost''))
   \<and> stage_calls (main env_stream_breaks 0 topic0 app0)
       = [(web_search_agent, u ''Pesquise sobre: clima hoje''),
          (researcher_agent, u ''Analise estes dados:'' @ [10] @ u ''texto''),
          (writer_agent, u ''Crie um artigo usando:'' @ [10] @ u ''texto''),
          (proofreader_agent, u ''Revise:'' @ [10] @ u ''texto'')]
   \<and> Error (u ''Erro: connection lost'') \<in> set (page (main env_stream_breaks 0 topic0 app0))
   \<and> app_log (main env_stream_breaks 0 topic0 app0) = []"
proof -
  have v: "validate_input (u ''clima hoje'') = Inr (u ''clima hoje'')"
    using validate_topic0 by (simp add: topic0_def)
  have m: "main env_stream_breaks 0 topic0 app0
    = \<lparr>stage_calls = [(web_search_agent, u ''Pesquise sobre: clima hoje''),
          (researcher_agent, u ''Analise estes dados:'' @ [10] @ u ''texto''),
          (writer_agent, u ''Crie um artigo usando:'' @ [10] @ u ''texto''),
          (proofreader_agent, u ''Revise:'' @ [10] @ u ''texto'')],
       app_log = [],
       cache = [u ''clima hoje'' \<mapsto> (u ''texto'', 0)],
       article = Some [],
       page = [Title ([128196] @ u '' Gerador de Artigos''), Markdown (u ''---''),
          Write msg_searching, Write msg_writing, Error (u ''Erro: connection lost'')],
       placeholder = [u ''Ol'' @ cursor]\<rparr>"
    by (simp add: main_def topic0_def submit_def submit_try_def v process_research_def
        cache_data_def cache_lookup_def process_research_body_def process_research_try_cases
        env_stream_breaks_def Let_def st_show_def start_page_def app0_def ola_chunks_def
        chunk_get_def show_article_def)
      (simp add: u_def)
  show ?thesis
    unfolding m by (simp add: env_stream_breaks_def)
qed

text \<open>
  C5, amended: in every run where the topic is valid and a stage raises, in the pipeline
  or in the proofreading stream, the run ends with the failure shown on the page and the
  article of the session state is what it was before the run (empty when there was none);
  the text streamed so far is not made the article. When the failing stage is one of the
  three stages of the pipeline, \<open>process_research\<close> logs the failure and raises the same
  exception; when it is the proofreading stage, nothing is logged.
\<close>

theorem main_stage_failure:
  assumes "submit_btn inp" and "\<not> clear_btn inp"
    and "validate_input (query_input inp) = Inr q"
    and "process_research env t q (st_show (Write msg_searching) (start_page st0)) = (r, st1)"
    and "r = Inl failure
         \<or> (\<exists>draft. r = Inr draft
              \<and> snd (client_run_stream env (length (stage_calls st1)) proofreader_agent
                    (u ''Revise:'' @ [10] @ draft)) = Some failure)"
  shows "article (main env t inp st0) = Some (case article st0 of None \<Rightarrow> [] | Some a \<Rightarrow> a)
         \<and> Error (u ''Erro: '' @ str_exn failure) \<in> set (page (main env t inp st0))
         \<and> app_log (main env t inp st0)
             = (case r of
                  Inl e \<Rightarrow> app_log st0 @ [u ''Erro no processamento: '' @ str_exn e]
                | Inr draft \<Rightarrow> app_log st0)
         \<and> (case r of
               Inl e \<Rightarrow>
                 (\<exists>a c. last (stage_calls st1) = (a, c)
                    \<and> client_run env (length (stage_calls st1) - 1) a c = Inl e)
             | Inr draft \<Rightarrow> True)"
proof (cases r)
  case (Inl e)
  with assms(5) have e: "e = failure"
    by auto
  from assms(4) Inl have p: "process_research env t q (st_show (Write msg_searching) (start_page st0))
      = (Inl e, st1)"
    by simp
  have s: "submit env t (query_input inp) (start_page st0)
      = st_show (Error (u ''Erro: '' @ str_exn e)) st1"
    by (rule submit_research_raises [OF assms(3) p])
  from process_research_fields [of env t q "st_show (Write msg_searching) (start_page st0)"] p
  have a: "article st1 = article (start_page st0)"
    by (simp add: st_show_fields)
  note b = process_research_body_raises [OF process_research_raises [OF p]]
  have pg: "Error (u ''Erro: '' @ str_exn e) \<in> set (page (show_article (st_show (Error (u ''Erro: '' @ str_exn e)) st1)))"
    using set_page_show_article [of "st_show (Error (u ''Erro: '' @ str_exn e)) st1"]
    by (auto simp: st_show_fields)
  show ?thesis
    using b pg
    by (simp add: main_submit [OF assms(1,2,3)] s show_article_fields st_show_fields a
        article_start_page start_page_fields Inl e)
next
  case (Inr draft)
  with assms(5) have f: "snd (client_run_stream env (length (stage_calls st1)) proofreader_agent
                    (u ''Revise:'' @ [10] @ draft)) = Some failure"
    by auto
  then obtain chunks where c: "client_run_stream env (length (stage_calls st1)) proofreader_agent
                    (u ''Revise:'' @ [10] @ draft) = (chunks, Some failure)"
    by (cases "client_run_stream env (length (stage_calls st1)) proofreader_agent
                    (u ''Revise:'' @ [10] @ draft)") auto
  from assms(4) Inr have p: "process_research env t q (st_show (Write msg_searching) (start_page st0))
      = (Inr draft, st1)"
    by simp
  from submit_streams [OF assms(3) p c] obtain shown st2 where
    st2: "article st2 = article st1" "app_log st2 = app_log st1"
    and s: "submit env t (query_input inp) (start_page st0)
       = st_show (Error (u ''Erro: '' @ str_exn failure)) st2"
    by auto
  from process_research_fields [of env t q "st_show (Write msg_searching) (start_page st0)"] p
  have a: "article st1 = article (start_page st0)"
    by (simp add: st_show_fields)
  from process_research_returns_log [OF p] have l: "app_log st1 = app_log st0"
    by (simp add: st_show_fields start_page_fields)
  have pg: "Error (u ''Erro: '' @ str_exn failure)
      \<in> set (page (show_article (st_show (Error (u ''Erro: '' @ str_exn failure)) st2)))"
    using set_page_show_article [of "st_show (Error (u ''Erro: '' @ str_exn failure)) st2"]
    by (auto simp: st_show_fields)
  show ?thesis
    using pg
    by (simp add: main_submit [OF assms(1,2,3)] s show_article_fields st_show_fields a st2 l
        article_start_page Inr)
qed

theorem main_stage_failure_witness:
  "article (main env_draft_fails 0 topic0 app0) = Some []
   \<and> Error (u ''Erro: model down'') \<in> set (page (main env_draft_fails 0 topic0 app0))
   \<and> app_log (main env_draft_fails 0 topic0 app0) = [u ''Erro no processamento: model down'']
   \<and> article (main env_stream_breaks 0 topic0 app0) = Some []
   \<and> Error (u ''Erro: connection lost'') \<in> set (page (main env_stream_breaks 0 topic0 app0))
   \<and> app_log (main env_stream_breaks 0 topic0 app0) = []"
proof -
  let ?p = "process_research env_draft_fails 0 (u ''clima hoje'')
      (st_show (Write msg_searching) (start_page app0))"
  let ?q = "process_research env_stream_breaks 0 (u ''clima hoje'')
      (st_show (Write msg_searching) (start_page app0))"
  have h1: "submit_btn topic0" and h2: "\<not> clear_btn topic0"
    by (simp_all add: topic0_def)
  have p: "?p = (Inl (OtherError (u ''model down'')), snd ?p)"
    using research_env_draft_fails [of 0 "Write msg_searching"] by (simp add: prod_eq_iff)
  have q: "?q = (Inr (u ''texto''), snd ?q)"
    using research_env_stream_breaks [of 0 "Write msg_searching"] by (simp add: prod_eq_iff)
  have fp: "Inl (OtherError (u ''model down'')) = Inl (OtherError (u ''model down''))
         \<or> (\<exists>draft. (Inl (OtherError (u ''model down'')) :: exn + pystr) = Inr draft
              \<and> snd (client_run_stream env_draft_fails (length (stage_calls (snd ?p))) proofreader_agent
                    (u ''Revise:'' @ [10] @ draft)) = Some (OtherError (u ''model down'')))"
    by simp
  have fq: "Inr (u ''texto'') = Inl (OtherError (u ''connection lost''))
         \<or> (\<exists>draft. (Inr (u ''texto'') :: exn + pystr) = Inr draft
              \<and> snd (client_run_stream env_stream_breaks (length (stage_calls (snd ?q))) proofreader_agent
                    (u ''Revise:'' @ [10] @ draft)) = Some (OtherError (u ''connection lost'')))"
    by (simp add: env_stream_breaks_def)
  from main_stage_failure [OF h1 h2 validate_topic0 p fp]
    main_stage_failure [OF h1 h2 validate_topic0 q fq]
  show ?thesis
    by (simp add: app0_def) (simp add: u_def)
qed

text \<open>
  C9: after a call of \<open>process_research\<close> for a topic at time \<open>t0\<close> that found no
  fresh entry, ran the three stages and returned a draft, a call for the same topic less
  than 3600 seconds after \<open>t0\<close> returns the same draft and leaves the state as it is,
  whatever the runtime would answer: no stage is called. A call at \<open>t0 + 3600\<close> or
  later starts again with the search stage, and when it returns it has called the three
  stages in order. The second call may start from any state whose entry for the topic is
  the one the first call stored.
\<close>

theorem process_research_cache:
  assumes "cache_lookup CACHE_TIME t0 (cache st0) q = None"
    and "process_research env t0 q st0 = (Inr d, st1)"
    and "cache st2 q = cache st1 q"
  shows "map fst (drop (length (stage_calls st0)) (stage_calls st1))
           = [web_search_agent, researcher_agent, writer_agent]
         \<and> (t1 < t0 + 3600 \<longrightarrow> process_research env' t1 q st2 = (Inr d, st2))
         \<and> (t0 + 3600 \<le> t1 \<longrightarrow>
              (\<exists>rest. stage_calls (snd (process_research env' t1 q st2))
                  = stage_calls st2 @ (web_search_agent, u ''Pesquise sobre: '' @ q) # rest)
              \<and> (case fst (process_research env' t1 q st2) of
                    Inl e \<Rightarrow> True
                  | Inr d' \<Rightarrow>
                      map fst (drop (length (stage_calls st2))
                          (stage_calls (snd (process_research env' t1 q st2))))
                        = [web_search_agent, researcher_agent, writer_agent]))"
proof -
  from assms obtain st' where b: "process_research_body env q st0 = (Inr d, st')"
    and s: "st1 = st'\<lparr>cache := (cache st')(q \<mapsto> (d, t0))\<rparr>"
    by (auto simp: process_research_miss split: sum.splits prod.splits)
  from process_research_body_returns [OF b] s
  have first: "map fst (drop (length (stage_calls st0)) (stage_calls st1))
           = [web_search_agent, researcher_agent, writer_agent]"
    by simp
  from s assms(3) have entry: "cache st2 q = Some (d, t0)"
    by simp
  have hit: "process_research env' t1 q st2 = (Inr d, st2)" if "t1 < t0 + 3600"
    using that entry by (simp add: process_research_hit cache_lookup_def CACHE_TIME_def)
  have miss: "process_research env' t1 q st2 =
     (case process_research_body env' q st2 of
        (Inr v, st') \<Rightarrow> (Inr v, st'\<lparr>cache := (cache st')(q \<mapsto> (v, t1))\<rparr>)
      | (Inl e, st') \<Rightarrow> (Inl e, st'))" if "t0 + 3600 \<le> t1"
    using that entry by (simp add: process_research_miss cache_lookup_def CACHE_TIME_def)
  have fresh1: "\<exists>rest. stage_calls (snd (process_research env' t1 q st2))
                  = stage_calls st2 @ (web_search_agent, u ''Pesquise sobre: '' @ q) # rest"
    if "t0 + 3600 \<le> t1"
    using process_research_body_first_call [of env' q st2]
    by (auto simp: miss [OF that] split: sum.splits prod.splits)
  have fresh2: "case fst (process_research env' t1 q st2) of
                    Inl e \<Rightarrow> True
                  | Inr d' \<Rightarrow>
                      map fst (drop (length (stage_calls st2))
                          (stage_calls (snd (process_research env' t1 q st2))))
                        = [web_search_agent, researcher_agent, writer_agent]"
    if "t0 + 3600 \<le> t1"
  proof (cases "process_research_body env' q st2")
    case (Pair r2 st3)
    show ?thesis
    proof (cases r2)
      case (Inl e)
      with Pair show ?thesis
        by (simp add: miss [OF that])
    next
      case (Inr d')
      with Pair process_research_body_returns [of env' q st2 d' st3] show ?thesis
        by (simp add: miss [OF that])
    qed
  qed
  from first hit fresh1 fresh2 show ?thesis
    by blast
qed

theorem process_research_cache_witness:
  "fst (process_research env_ok 0 (u ''clima hoje'') (start_page app0)) = Inr (u ''texto'')
   \<and> process_research env_draft_fails 3599 (u ''clima hoje'')
        (snd (process_research env_ok 0 (u ''clima hoje'') (start_page app0)))
       = (Inr (u ''texto''), snd (process_research env_ok 0 (u ''clima hoje'') (start_page app0)))
   \<and> map fst (stage_calls (snd (process_research env_ok 3600 (u ''clima hoje'')
        (snd (process_research env_ok 0 (u ''clima hoje'') (start_page app0))))))
       = [web_search_agent, researcher_agent, writer_agent,
          web_search_agent, researcher_agent, writer_agent]"
proof -
  let ?q = "u ''clima hoje''"
  let ?p = "process_research env_ok 0 ?q (start_page app0)"
  let ?r = "process_research env_ok 3600 ?q (snd ?p)"
  have c: "cache_lookup CACHE_TIME 0 (cache (start_page app0)) ?q = None"
    by (simp add: cache_lookup_def start_page_fields app0_def)
  have f: "fst ?p = Inr (u ''texto'')"
    by (simp add: process_research_miss c process_research_body_def
      process_research_try_cases env_ok_def)
  then have p: "?p = (Inr (u ''texto''), snd ?p)"
    by (simp add: prod_eq_iff)
  have s0: "stage_calls (start_page app0) = []"
    by (simp add: start_page_fields app0_def)
  note first = process_research_cache [OF c p refl, of 3599 env_draft_fails]
  note later = process_research_cache [OF c p refl, of 3600 env_ok]
  from first have calls: "map fst (stage_calls (snd ?p))
      = [web_search_agent, researcher_agent, writer_agent]"
    by (simp add: s0)
  from first have hit: "process_research env_draft_fails 3599 ?q (snd ?p)
      = (Inr (u ''texto''), snd ?p)"
    by simp
  have e: "cache (snd ?p) ?q = Some (u ''texto'', 0)"
    using p c by (auto simp: process_research_miss split: sum.splits prod.splits)
  have "cache_lookup CACHE_TIME 3600 (cache (snd ?p)) ?q = None"
    by (simp add: cache_lookup_def e CACHE_TIME_def)
  then have r: "fst ?r = Inr (u ''texto'')"
    by (simp add: process_research_miss process_research_body_def
      process_research_try_cases env_ok_def)
  from later obtain rest where rest: "stage_calls (snd ?r) = stage_calls (snd ?p) @ rest"
    by auto
  from later r have "map fst (drop (length (stage_calls (snd ?p))) (stage_calls (snd ?r)))
      = [web_search_agent, researcher_agent, writer_agent]"
    by simp
  then have "map fst rest = [web_search_agent, researcher_agent, writer_agent]"
    by (simp add: rest)
  then have "map fst (stage_calls (snd ?r))
      = [web_search_agent, researcher_agent, writer_agent,
          web_search_agent, researcher_agent, writer_agent]"
    by (simp add: rest calls)
  with f hit show ?thesis
    by simp
qed

end
